theory Spec2Isabelle
  imports Main
begin

section \<open>The session manager of compass/db/database.py\<close>

text \<open>
  The module owns four globals: \<open>ENGINE\<close>, the session factory \<open>SESSION\<close>, the
  scoped-session registry \<open>SCOPED_SESSION\<close> and the thread-local \<open>SESSION_HOLDER\<close>.
  They are the first four fields of the state below. The remaining fields are the part of
  the world that the module acts on through the database library: the session objects
  that exist (each with the engine it was bound to when the factory made it), the calls
  the module has made on session objects, the records it has handed to \<open>logging\<close>, and
  the tables present in the database behind each engine.

  A thread is a \<open>tid\<close>; the operations that read thread-local data take the calling
  thread as their first argument. A session object is a \<open>sid\<close>, its index in
  \<open>sessions\<close>, so that "the same object" is equality of indices.

  Values of \<open>exn\<close> stand for instances of Python's \<open>Exception\<close>, the class that both
  handlers of the module catch. \<open>AttributeError\<close> is the one the interpreter raises when
  the attribute \<open>session\<close> of \<open>SESSION_HOLDER\<close> is read or deleted while absent;
  \<open>Error\<close> is any other one, told apart by its text.
\<close>

type_synonym tid = nat
type_synonym sid = nat
type_synonym url = string

datatype engine = Engine url

datatype exn = AttributeError | Error string

datatype call = Commit sid | Rollback sid | Close sid | Remove tid

datatype level = DEBUG | INFO | WARNING | ERROR | CRITICAL

datatype log_msg = Text string | Traceback exn

type_synonym log_record = "level \<times> log_msg"

record state =
  ENGINE :: engine
  SESSION :: engine
  SCOPED_SESSION :: "tid \<rightharpoonup> sid"
  SESSION_HOLDER :: "tid \<rightharpoonup> sid"
  sessions :: "engine list"
  calls :: "call list"
  log :: "log_record list"
  db :: "engine \<Rightarrow> string set"

text \<open>
  Module level, lines 13 to 17: the engine is created from
  \<open>setting.SQLALCHEMY_DATABASE_URI\<close>, a constant of another module, taken here as the
  parameter \<open>uri\<close>; the factory is bound to it; registry and holder start empty.
  This is the state after an import that succeeded: with a URL that \<open>create_engine\<close>
  rejects, line 13 raises and there is no module.
\<close>

definition initial :: "url \<Rightarrow> (engine \<Rightarrow> string set) \<Rightarrow> state" where
  "initial uri d =
     \<lparr>ENGINE = Engine uri, SESSION = Engine uri,
      SCOPED_SESSION = Map.empty, SESSION_HOLDER = Map.empty,
      sessions = [], calls = [], log = [], db = d\<rparr>"

subsection \<open>The library operations the module calls\<close>

text \<open>
  \<open>logging.error(msg)\<close> and \<open>logging.exception(error)\<close> both emit a record at
  level ERROR; the second carries the exception.
\<close>

definition logging_error :: "string \<Rightarrow> state \<Rightarrow> state" where
  "logging_error msg st = st\<lparr>log := log st @ [(ERROR, Text msg)]\<rparr>"

definition logging_exception :: "exn \<Rightarrow> state \<Rightarrow> state" where
  "logging_exception e st = st\<lparr>log := log st @ [(ERROR, Traceback e)]\<rparr>"

text \<open>
  \<open>SCOPED_SESSION()\<close>: the registry hands the calling thread its session, and has the
  factory make one, bound to the factory's engine, when the thread has none.
\<close>

definition scoped_session_call :: "tid \<Rightarrow> state \<Rightarrow> sid \<times> state" where
  "scoped_session_call t st =
     (case SCOPED_SESSION st t of
        Some s \<Rightarrow> (s, st)
      | None \<Rightarrow>
          (length (sessions st),
           st\<lparr>sessions := sessions st @ [SESSION st],
              SCOPED_SESSION := (SCOPED_SESSION st)(t \<mapsto> length (sessions st))\<rparr>))"

text \<open>
  The calls on a session object are recorded in \<open>calls\<close>, in order. Whether
  \<open>commit()\<close> raises is decided by the database, so its outcome \<open>co\<close> is an argument:
  \<open>None\<close> when it returns, \<open>Some e\<close> when it raises \<open>e\<close>. \<open>rollback()\<close>,
  \<open>close()\<close> and \<open>remove()\<close> return.
\<close>

definition session_commit :: "sid \<Rightarrow> exn option \<Rightarrow> state \<Rightarrow> exn option \<times> state" where
  "session_commit s co st = (co, st\<lparr>calls := calls st @ [Commit s]\<rparr>)"

definition session_rollback :: "sid \<Rightarrow> state \<Rightarrow> state" where
  "session_rollback s st = st\<lparr>calls := calls st @ [Rollback s]\<rparr>"

definition session_close :: "sid \<Rightarrow> state \<Rightarrow> state" where
  "session_close s st = st\<lparr>calls := calls st @ [Close s]\<rparr>"

definition scoped_session_remove :: "tid \<Rightarrow> state \<Rightarrow> state" where
  "scoped_session_remove t st =
     st\<lparr>calls := calls st @ [Remove t],
        SCOPED_SESSION := (SCOPED_SESSION st)(t := None)\<rparr>"

text \<open>\<open>del SESSION_HOLDER.session\<close> raises when the calling thread has no such attribute.\<close>

definition del_session :: "tid \<Rightarrow> state \<Rightarrow> exn option \<times> state" where
  "del_session t st =
     (case SESSION_HOLDER st t of
        None \<Rightarrow> (Some AttributeError, st)
      | Some s \<Rightarrow> (None, st\<lparr>SESSION_HOLDER := (SESSION_HOLDER st)(t := None)\<rparr>))"

subsection \<open>init\<close>

text \<open>
  \<open>create_engine(database_url, convert_unicode=True)\<close> raises on a URL that the
  library's parser or the dialect it names rejects, and returns an engine for the URL
  otherwise. Which of the two happens is decided by the library, so the outcome \<open>eo\<close> is
  an argument: \<open>Some e\<close> when the call raises \<open>e\<close>, \<open>None\<close> when it returns.
\<close>

definition create_engine :: "url \<Rightarrow> exn option \<Rightarrow> exn + engine" where
  "create_engine database_url eo =
     (case eo of
        Some e \<Rightarrow> Inl e
      | None \<Rightarrow> Inr (Engine database_url))"

text \<open>
  Lines 30 to 32. The call on line 30 is not guarded: when it raises, \<open>init\<close> raises
  the same exception before any global is assigned. The result is the exception that
  leaves \<open>init\<close>, if any.
\<close>

definition init :: "url \<Rightarrow> exn option \<Rightarrow> state \<Rightarrow> exn option \<times> state" where
  "init database_url eo st =
     (case create_engine database_url eo of
        Inl e \<Rightarrow> (Some e, st)
      | Inr engine \<Rightarrow>
          (None,
           st\<lparr>ENGINE := engine,
              SESSION := engine,
              SCOPED_SESSION := Map.empty\<rparr>))"

subsection \<open>session\<close>

text \<open>
  \<open>session\<close> is a generator under \<open>contextmanager\<close>. Entering the \<open>with\<close> block runs
  it up to the \<open>yield\<close> (lines 44 to 51): that is \<open>session_enter\<close>, which returns the
  yielded \<open>new_session\<close>. Leaving the block resumes it after the \<open>yield\<close>
  (lines 52 to 61): that is \<open>session_exit\<close>. Its argument \<open>new_session\<close> is the
  generator's local variable, \<open>bo\<close> is how the block ended (\<open>Some e\<close> when \<open>e\<close> was
  raised in it) and \<open>co\<close> is the outcome of \<open>commit()\<close>, should it be called. The
  result is the exception that leaves the \<open>with\<close> statement, if any.
\<close>

definition session_enter :: "tid \<Rightarrow> state \<Rightarrow> sid \<times> state" where
  "session_enter t st =
     (let (new_session, st1) =
            (case SESSION_HOLDER st t of
               Some s \<Rightarrow> (s, logging_error ''we are already in session'' st)
             | None \<Rightarrow> scoped_session_call t st)
      in (new_session,
          st1\<lparr>SESSION_HOLDER := (SESSION_HOLDER st1)(t \<mapsto> new_session)\<rparr>))"

definition session_try :: "sid \<Rightarrow> exn option \<Rightarrow> exn option \<Rightarrow> state \<Rightarrow> exn option \<times> state" where
  "session_try new_session bo co st =
     (let (raised, st1) =
            (case bo of
               Some e \<Rightarrow> (Some e, st)
             | None \<Rightarrow> session_commit new_session co st)
      in case raised of
           None \<Rightarrow> (None, st1)
         | Some error \<Rightarrow>
             (Some error,
              logging_exception error
                (logging_error ''failed to commit session''
                   (session_rollback new_session st1))))"

definition session_finally :: "tid \<Rightarrow> sid \<Rightarrow> exn option \<Rightarrow> state \<Rightarrow> exn option \<times> state" where
  "session_finally t new_session pending st =
     (let (r, st1) =
            del_session t (scoped_session_remove t (session_close new_session st))
      in case r of
           Some e \<Rightarrow> (Some e, st1)
         | None \<Rightarrow> (pending, st1))"

definition session_exit :: "tid \<Rightarrow> sid \<Rightarrow> exn option \<Rightarrow> exn option \<Rightarrow> state \<Rightarrow> exn option \<times> state" where
  "session_exit t new_session bo co st =
     (let (pending, st1) = session_try new_session bo co st
      in session_finally t new_session pending st1)"

text \<open>
  A whole \<open>with database.session() as s: body\<close> statement. The body is given the yielded
  session and the state, and returns how it ended.
\<close>

definition with_session ::
  "tid \<Rightarrow> (sid \<Rightarrow> state \<Rightarrow> exn option \<times> state) \<Rightarrow> exn option \<Rightarrow> state \<Rightarrow> exn option \<times> state" where
  "with_session t body co st =
     (let (s, st1) = session_enter t st;
          (bo, st2) = body s st1
      in session_exit t s bo co st2)"

subsection \<open>current_session\<close>

definition current_session :: "tid \<Rightarrow> state \<Rightarrow> (exn + sid) \<times> state" where
  "current_session t st =
     (case SESSION_HOLDER st t of
        Some s \<Rightarrow> (Inr s, st)
      | None \<Rightarrow>
          (Inl AttributeError,
           logging_exception AttributeError
             (logging_error ''It is not in the session scope'' st)))"

subsection \<open>Schema helpers\<close>

text \<open>
  The collaborator \<open>model\<close> and the table objects it defines are not part of this
  module; the four operations the module calls on them are modelled from the spec. A
  database is the set of names of the tables present behind each engine, and the
  metadata is the list \<open>md\<close> of the names of the tables it knows.
\<close>

text \<open>
  Modelled from the spec: \<open>metadata.create_all(engine)\<close> of the missing collaborator
  \<open>model\<close>, which creates all tables known to the model's metadata.
\<close>

definition metadata_create_all :: "string list \<Rightarrow> engine \<Rightarrow> (engine \<Rightarrow> string set) \<Rightarrow> engine \<Rightarrow> string set" where
  "metadata_create_all md e d = d(e := d e \<union> set md)"

text \<open>
  Modelled from the spec: \<open>metadata.drop_all(engine)\<close> of the missing collaborator
  \<open>model\<close>, which drops all tables known to the model's metadata.
\<close>

definition metadata_drop_all :: "string list \<Rightarrow> engine \<Rightarrow> (engine \<Rightarrow> string set) \<Rightarrow> engine \<Rightarrow> string set" where
  "metadata_drop_all md e d = d(e := d e - set md)"

text \<open>
  Modelled from the spec: \<open>table.create(engine, checkfirst)\<close> of the missing table
  objects, which creates one table; check-first means no error if the table already
  exists.
\<close>

definition table_create :: "string \<Rightarrow> engine \<Rightarrow> bool \<Rightarrow> (engine \<Rightarrow> string set) \<Rightarrow> exn + (engine \<Rightarrow> string set)" where
  "table_create tbl e checkfirst d =
     (if tbl \<in> d e
      then (if checkfirst then Inr d else Inl (Error ''table already exists''))
      else Inr (d(e := insert tbl (d e))))"

text \<open>
  Modelled from the spec: \<open>table.drop(engine, checkfirst)\<close> of the missing table
  objects, which drops one table; check-first means no error if the table is already
  absent.
\<close>

definition table_drop :: "string \<Rightarrow> engine \<Rightarrow> bool \<Rightarrow> (engine \<Rightarrow> string set) \<Rightarrow> exn + (engine \<Rightarrow> string set)" where
  "table_drop tbl e checkfirst d =
     (if tbl \<in> d e
      then Inr (d(e := d e - {tbl}))
      else (if checkfirst then Inr d else Inl (Error ''table does not exist'')))"

text \<open>The module's four helpers, lines 81 to 112.\<close>

definition create_db :: "string list \<Rightarrow> state \<Rightarrow> state" where
  "create_db md st = st\<lparr>db := metadata_create_all md (ENGINE st) (db st)\<rparr>"

definition drop_db :: "string list \<Rightarrow> state \<Rightarrow> state" where
  "drop_db md st = st\<lparr>db := metadata_drop_all md (ENGINE st) (db st)\<rparr>"

definition create_table :: "string \<Rightarrow> state \<Rightarrow> exn option \<times> state" where
  "create_table table st =
     (case table_create table (ENGINE st) True (db st) of
        Inl e \<Rightarrow> (Some e, st)
      | Inr d \<Rightarrow> (None, st\<lparr>db := d\<rparr>))"

definition drop_table :: "string \<Rightarrow> state \<Rightarrow> exn option \<times> state" where
  "drop_table table st =
     (case table_drop table (ENGINE st) True (db st) of
        Inl e \<Rightarrow> (Some e, st)
      | Inr d \<Rightarrow> (None, st\<lparr>db := d\<rparr>))"

subsection \<open>Runs of the module\<close>

text \<open>
  A run is a sequence of operations by any threads. Besides the module's state a run
  carries, for each thread, the stack of its suspended \<open>session\<close> generators, each with
  its \<open>new_session\<close>: \<open>with\<close> blocks of one thread are nested, so the block that is
  left is always the innermost one. Leaving a block when the thread is in none is not a
  step of any program and changes nothing.
\<close>

datatype op =
    Init url "exn option"
  | Enter tid
  | Exit tid "exn option" "exn option"
  | Current tid
  | CreateDb "string list"
  | DropDb "string list"
  | CreateTable string
  | DropTable string

type_synonym conf = "state \<times> (tid \<Rightarrow> sid list)"

fun apply_op :: "op \<Rightarrow> conf \<Rightarrow> conf" where
  "apply_op (Init u eo) (st, fr) = (snd (init u eo st), fr)"
| "apply_op (Enter t) (st, fr) =
     (let (s, st') = session_enter t st in (st', fr(t := s # fr t)))"
| "apply_op (Exit t bo co) (st, fr) =
     (case fr t of
        [] \<Rightarrow> (st, fr)
      | s # rest \<Rightarrow> (snd (session_exit t s bo co st), fr(t := rest)))"
| "apply_op (Current t) (st, fr) = (snd (current_session t st), fr)"
| "apply_op (CreateDb md) (st, fr) = (create_db md st, fr)"
| "apply_op (DropDb md) (st, fr) = (drop_db md st, fr)"
| "apply_op (CreateTable tbl) (st, fr) = (snd (create_table tbl st), fr)"
| "apply_op (DropTable tbl) (st, fr) = (snd (drop_table tbl st), fr)"

fun run :: "op list \<Rightarrow> conf \<Rightarrow> conf" where
  "run [] c = c"
| "run (x # xs) c = run xs (apply_op x c)"

definition start :: "url \<Rightarrow> (engine \<Rightarrow> string set) \<Rightarrow> conf" where
  "start uri d = (initial uri d, \<lambda>t. [])"

subsection \<open>Client code used in the examples\<close>

text \<open>
  A database with no tables, the body \<open>pass\<close>, and a body that runs a nested
  \<open>with database.session(): pass\<close> and then raises \<open>e\<close>.
\<close>

definition empty_db :: "engine \<Rightarrow> string set" where
  "empty_db e = {}"

definition pass_body :: "sid \<Rightarrow> state \<Rightarrow> exn option \<times> state" where
  "pass_body s st = (None, st)"

definition nested_then_raise :: "tid \<Rightarrow> exn \<Rightarrow> sid \<Rightarrow> state \<Rightarrow> exn option \<times> state" where
  "nested_then_raise t e s st =
     (case with_session t pass_body None st of
        (Some e', st') \<Rightarrow> (Some e', st')
      | (None, st') \<Rightarrow> (Some e, st'))"

subsection \<open>Properties stated about runs\<close>

text \<open>
  The module's own state: the four globals, without the world behind the library.
\<close>

definition module_state :: "state \<Rightarrow> engine \<times> engine \<times> (tid \<rightharpoonup> sid) \<times> (tid \<rightharpoonup> sid)" where
  "module_state st = (ENGINE st, SESSION st, SCOPED_SESSION st, SESSION_HOLDER st)"

text \<open>
  The session the registry keeps for a thread, if any, is the one in the thread's holder.
\<close>

definition registry_agrees :: "conf \<Rightarrow> bool" where
  "registry_agrees c \<longleftrightarrow>
     (\<forall>t. SCOPED_SESSION (fst c) t = None \<or>
          SCOPED_SESSION (fst c) t = SESSION_HOLDER (fst c) t)"

text \<open>
  A session in a thread's holder is the \<open>new_session\<close> of that thread's innermost
  suspended generator.
\<close>

definition bound_in_scope :: "conf \<Rightarrow> bool" where
  "bound_in_scope c \<longleftrightarrow>
     (\<forall>t s. SESSION_HOLDER (fst c) t = Some s \<longrightarrow> (\<exists>rest. snd c t = s # rest))"

section \<open>Verification\<close>

lemmas lib_defs = logging_error_def logging_exception_def scoped_session_call_def
  session_commit_def session_rollback_def session_close_def scoped_session_remove_def
  del_session_def

lemmas exit_defs = session_exit_def session_try_def session_finally_def

lemma initial_fields:
  "ENGINE (initial uri d) = Engine uri" "SESSION (initial uri d) = Engine uri"
  "SCOPED_SESSION (initial uri d) = Map.empty" "SESSION_HOLDER (initial uri d) = Map.empty"
  "sessions (initial uri d) = []" "calls (initial uri d) = []" "log (initial uri d) = []"
  "db (initial uri d) = d"
  by (simp_all add: initial_def)

subsection \<open>Entering a scope\<close>

lemma session_enter_bound:
  "SESSION_HOLDER st t = Some s \<Longrightarrow>
     session_enter t st = (s, logging_error ''we are already in session'' st)"
  by (simp add: session_enter_def logging_error_def map_upd_triv)

lemma session_enter_unbound:
  "SESSION_HOLDER st t = None \<Longrightarrow> SCOPED_SESSION st t = None \<Longrightarrow>
     session_enter t st =
       (length (sessions st),
        st\<lparr>sessions := sessions st @ [SESSION st],
           SCOPED_SESSION := (SCOPED_SESSION st)(t \<mapsto> length (sessions st)),
           SESSION_HOLDER := (SESSION_HOLDER st)(t \<mapsto> length (sessions st))\<rparr>)"
  by (simp add: session_enter_def scoped_session_call_def)

lemma session_enter_binds:
  "session_enter t st = (s, st1) \<Longrightarrow> SESSION_HOLDER st1 t = Some s"
  by (auto simp: session_enter_def Let_def split: prod.splits)

lemma session_enter_initial:
  "session_enter t (initial uri d) =
     (0, (initial uri d)\<lparr>sessions := [Engine uri],
            SCOPED_SESSION := [t \<mapsto> 0], SESSION_HOLDER := [t \<mapsto> 0]\<rparr>)"
  by (simp add: session_enter_unbound initial_fields)

subsection \<open>Leaving a scope\<close>

text \<open>
  While the holder still has the thread's session, the exception that leaves the
  \<open>with\<close> statement is the one raised in the block, or the one \<open>commit()\<close> raised,
  and \<open>rollback()\<close> was called before \<open>close()\<close>.
\<close>

lemma session_exit_reraises:
  "SESSION_HOLDER st t = Some s' \<Longrightarrow>
     fst (session_exit t s (Some e) co st) = Some e \<and>
     calls (snd (session_exit t s (Some e) co st)) = calls st @ [Rollback s, Close s, Remove t]"
  by (simp add: exit_defs lib_defs)

lemma session_exit_commit_failure:
  "SESSION_HOLDER st t = Some s' \<Longrightarrow>
     fst (session_exit t s None (Some e) st) = Some e \<and>
     calls (snd (session_exit t s None (Some e) st)) =
       calls st @ [Commit s, Rollback s, Close s, Remove t]"
  by (simp add: exit_defs lib_defs)

lemma session_exit_unbound:
  "SESSION_HOLDER st t = None \<Longrightarrow> fst (session_exit t s bo co st) = Some AttributeError"
  by (auto simp: exit_defs lib_defs Let_def split: prod.splits option.splits)

lemma session_exit_clears:
  "SESSION_HOLDER (snd (session_exit t s bo co st)) t = None \<and>
   SCOPED_SESSION (snd (session_exit t s bo co st)) t = None"
  by (auto simp: exit_defs lib_defs Let_def split: prod.splits option.splits)

lemma session_exit_calls:
  "\<exists>cs. calls (snd (session_exit t s bo co st)) = calls st @ cs @ [Close s, Remove t]"
  by (auto simp: exit_defs lib_defs Let_def split: prod.splits option.splits)

subsection \<open>Claims about the session scope\<close>

text \<open>
  C1. An exception raised in a session scope should reach the caller unchanged, after a
  rollback. The scope below runs a nested \<open>with database.session(): pass\<close> and then
  raises \<open>Error ''boom''\<close>. Its exit does call \<open>rollback()\<close>, and \<open>raise error\<close> is
  reached, but the nested scope has already deleted the holder's attribute, so the
  \<open>del\<close> of the \<open>finally\<close> clause raises: the caller gets \<open>AttributeError\<close>, and
  \<open>Error ''boom''\<close> is lost.
\<close>

theorem nested_scope_replaces_error:
  "fst (with_session 0 (nested_then_raise 0 (Error ''boom'')) None
          (initial ''sqlite://'' empty_db)) = Some AttributeError \<and>
   calls (snd (with_session 0 (nested_then_raise 0 (Error ''boom'')) None
          (initial ''sqlite://'' empty_db))) =
     [Commit 0, Close 0, Remove 0, Rollback 0, Close 0, Remove 0]"
  by (simp add: with_session_def nested_then_raise_def pass_body_def session_enter_initial
        session_enter_bound exit_defs lib_defs initial_fields)

text \<open>
  C2. Whatever the body does and however the scope ends, after a
  \<open>with database.session()\<close> statement the calling thread's holder has no session, the
  registry has none for the thread, and the last two calls made were \<open>close()\<close> on the
  yielded session and \<open>remove()\<close>.
\<close>

theorem session_scope_releases:
  "SESSION_HOLDER (snd (with_session t body co st)) t = None \<and>
   SCOPED_SESSION (snd (with_session t body co st)) t = None \<and>
   (\<exists>cs. calls (snd (with_session t body co st)) =
            cs @ [Close (fst (session_enter t st)), Remove t])"
proof -
  obtain s st1 where e: "session_enter t st = (s, st1)" by (cases "session_enter t st")
  obtain bo st2 where b: "body s st1 = (bo, st2)" by (cases "body s st1")
  have w: "with_session t body co st = session_exit t s bo co st2"
    by (simp add: with_session_def e b)
  from session_exit_calls[of t s bo co st2]
  have "\<exists>cs. calls (snd (session_exit t s bo co st2)) = cs @ [Close s, Remove t]"
    by (metis append.assoc)
  with session_exit_clears[of t s bo co st2] show ?thesis
    by (simp add: w e)
qed

text \<open>
  C3. Inside a session scope \<open>current_session()\<close> should return the scope's session.
  Here the outer scope is entered, a nested \<open>with database.session(): pass\<close> runs to
  its end without an exception, and \<open>current_session()\<close> is then called, still inside
  the outer scope: it raises \<open>AttributeError\<close>.
\<close>

theorem current_session_fails_after_nested_scope:
  "fst (with_session 0 pass_body None
          (snd (session_enter 0 (initial ''sqlite://'' empty_db)))) = None \<and>
   fst (current_session 0
          (snd (with_session 0 pass_body None
                  (snd (session_enter 0 (initial ''sqlite://'' empty_db)))))) =
     Inl AttributeError"
  by (simp add: with_session_def pass_body_def session_enter_initial session_enter_bound
        current_session_def exit_defs lib_defs)

text \<open>
  The two halves of C3 where no nested scope has ended: right after the scope is entered
  \<open>current_session()\<close> returns the yielded session, and with nothing in the holder it
  raises \<open>AttributeError\<close> after logging that it is not in the session scope.
\<close>

lemma current_session_in_scope:
  "session_enter t st = (s, st1) \<Longrightarrow> current_session t st1 = (Inr s, st1)"
  by (simp add: current_session_def session_enter_binds)

lemma current_session_out_of_scope:
  "SESSION_HOLDER st t = None \<Longrightarrow>
     fst (current_session t st) = Inl AttributeError \<and>
     log (snd (current_session t st)) =
       log st @ [(ERROR, Text ''It is not in the session scope''), (ERROR, Traceback AttributeError)]"
  by (simp add: current_session_def lib_defs)

text \<open>
  C4. When the body of a session scope ends without an exception and \<open>commit()\<close>
  returns, the calls the scope makes after its body are exactly one \<open>commit()\<close>, one
  \<open>close()\<close> and the \<open>remove()\<close>, with no \<open>rollback()\<close>; nothing is logged; and
  if the holder still has the thread's session the \<open>with\<close> statement ends without an
  exception.
\<close>

theorem clean_scope_commits_once:
  assumes "session_enter t st = (s, st1)" and "body s st1 = (None, st2)"
  shows "calls (snd (with_session t body None st)) = calls st2 @ [Commit s, Close s, Remove t] \<and>
         log (snd (with_session t body None st)) = log st2 \<and>
         (SESSION_HOLDER st2 t \<noteq> None \<longrightarrow> fst (with_session t body None st) = None)"
  using assms
  by (auto simp: with_session_def exit_defs lib_defs Let_def split: prod.splits option.splits)

theorem clean_scope_commits_once_witness:
  "session_enter 0 (initial ''sqlite://'' empty_db) =
     (0, snd (session_enter 0 (initial ''sqlite://'' empty_db))) \<and>
   pass_body 0 (snd (session_enter 0 (initial ''sqlite://'' empty_db))) =
     (None, snd (session_enter 0 (initial ''sqlite://'' empty_db))) \<and>
   SESSION_HOLDER (snd (session_enter 0 (initial ''sqlite://'' empty_db))) 0 \<noteq> None \<and>
   calls (snd (with_session 0 pass_body None (initial ''sqlite://'' empty_db))) =
     [Commit 0, Close 0, Remove 0] \<and>
   fst (with_session 0 pass_body None (initial ''sqlite://'' empty_db)) = None"
proof -
  let ?st = "initial ''sqlite://'' empty_db"
  have e: "session_enter 0 ?st = (0, snd (session_enter 0 ?st))"
    by (simp add: session_enter_initial)
  have b: "pass_body 0 (snd (session_enter 0 ?st)) = (None, snd (session_enter 0 ?st))"
    by (simp add: pass_body_def)
  have h: "SESSION_HOLDER (snd (session_enter 0 ?st)) 0 \<noteq> None"
    by (simp add: session_enter_initial)
  have c: "calls (snd (session_enter 0 ?st)) = []"
    by (simp add: session_enter_initial initial_fields)
  from clean_scope_commits_once[of 0 ?st 0 "snd (session_enter 0 ?st)" pass_body
      "snd (session_enter 0 ?st)", OF e b] e b h c
  show ?thesis by simp
qed

text \<open>
  C5, as the code has it. Entering a session scope while the holder has a session for
  the thread yields that very session, makes no new one and leaves registry and holder
  as they were; the message \<open>we are already in session\<close> goes to \<open>logging.error\<close>,
  so the record is at level ERROR.
\<close>

theorem reentry_yields_bound_session:
  "SESSION_HOLDER st t = Some s \<Longrightarrow>
     fst (session_enter t st) = s \<and>
     log (snd (session_enter t st)) = log st @ [(ERROR, Text ''we are already in session'')] \<and>
     sessions (snd (session_enter t st)) = sessions st \<and>
     SCOPED_SESSION (snd (session_enter t st)) = SCOPED_SESSION st \<and>
     SESSION_HOLDER (snd (session_enter t st)) = SESSION_HOLDER st"
  by (simp add: session_enter_bound logging_error_def)

theorem reentry_yields_bound_session_witness:
  "SESSION_HOLDER (snd (session_enter 0 (initial ''sqlite://'' empty_db))) 0 = Some 0 \<and>
   fst (session_enter 0 (snd (session_enter 0 (initial ''sqlite://'' empty_db)))) = 0 \<and>
   sessions (snd (session_enter 0 (snd (session_enter 0 (initial ''sqlite://'' empty_db))))) =
     [Engine ''sqlite://'']"
proof -
  let ?st1 = "snd (session_enter 0 (initial ''sqlite://'' empty_db))"
  have h: "SESSION_HOLDER ?st1 0 = Some 0"
    by (simp add: session_enter_initial)
  have s: "sessions ?st1 = [Engine ''sqlite://'']"
    by (simp add: session_enter_initial)
  from reentry_yields_bound_session[OF h] h s show ?thesis by simp
qed

text \<open>
  C5 as stated asks for a warning. On re-entry the only record logged is at level ERROR:
  none is at level WARNING.
\<close>

theorem reentry_logs_no_warning:
  "WARNING \<notin> fst ` set (log (snd (session_enter 0
      (snd (session_enter 0 (initial ''sqlite://'' empty_db))))))"
  by (simp add: session_enter_initial session_enter_bound logging_error_def initial_fields)

text \<open>
  C9. An outer scope is entered and, inside it, a nested one. Whatever happens in the
  nested body and however it ends, the nested scope was yielded the outer scope's
  session, its exit closes that session and leaves the thread's holder empty; then
  \<open>current_session()\<close> raises \<open>AttributeError\<close>, and so does the exit of the outer
  scope, however its own body ends.
\<close>

theorem nested_scope_breaks_outer:
  assumes outer: "session_enter t st0 = (s, st1)"
      and inner: "session_enter t st1 = (s', st2)"
      and leave: "session_exit t s' bo co st3 = (r, st4)"
  shows "s' = s \<and>
         (\<exists>cs. calls st4 = calls st3 @ cs @ [Close s, Remove t]) \<and>
         SESSION_HOLDER st4 t = None \<and>
         fst (current_session t st4) = Inl AttributeError \<and>
         fst (session_exit t s bo' co' st4) = Some AttributeError"
proof -
  from outer have "SESSION_HOLDER st1 t = Some s"
    by (rule session_enter_binds)
  with inner have same: "s' = s"
    by (simp add: session_enter_bound)
  from leave session_exit_calls[of t s' bo co st3]
  have made: "\<exists>cs. calls st4 = calls st3 @ cs @ [Close s', Remove t]"
    by simp
  from leave session_exit_clears[of t s' bo co st3]
  have gone: "SESSION_HOLDER st4 t = None"
    by simp
  then have cur: "fst (current_session t st4) = Inl AttributeError"
    by (simp add: current_session_def)
  from gone have "fst (session_exit t s bo' co' st4) = Some AttributeError"
    by (rule session_exit_unbound)
  with same made gone cur show ?thesis by simp
qed

theorem nested_scope_breaks_outer_witness:
  "session_enter 0 (initial ''sqlite://'' empty_db) =
     (0, snd (session_enter 0 (initial ''sqlite://'' empty_db))) \<and>
   session_enter 0 (snd (session_enter 0 (initial ''sqlite://'' empty_db))) =
     (0, snd (session_enter 0 (snd (session_enter 0 (initial ''sqlite://'' empty_db))))) \<and>
   fst (current_session 0
     (snd (session_exit 0 0 None None
        (snd (session_enter 0 (snd (session_enter 0 (initial ''sqlite://'' empty_db)))))))) =
     Inl AttributeError \<and>
   fst (session_exit 0 0 None None
     (snd (session_exit 0 0 None None
        (snd (session_enter 0 (snd (session_enter 0 (initial ''sqlite://'' empty_db)))))))) =
     Some AttributeError"
proof -
  let ?st0 = "initial ''sqlite://'' empty_db"
  let ?st1 = "snd (session_enter 0 ?st0)"
  let ?st2 = "snd (session_enter 0 ?st1)"
  let ?st4 = "snd (session_exit 0 0 None None ?st2)"
  have outer: "session_enter 0 ?st0 = (0, ?st1)"
    by (simp add: session_enter_initial)
  have inner: "session_enter 0 ?st1 = (0, ?st2)"
    by (simp add: session_enter_initial session_enter_bound)
  have leave: "session_exit 0 0 None None ?st2 = (fst (session_exit 0 0 None None ?st2), ?st4)"
    by simp
  from nested_scope_breaks_outer[of 0 ?st0 0 ?st1 0 ?st2 None None ?st2 _ ?st4 None None,
      OF outer inner leave] outer inner
  show ?thesis by simp
qed

subsection \<open>Claims about runs of the module\<close>

lemma run_snoc: "run (xs @ [x]) c = apply_op x (run xs c)"
  by (induction xs arbitrary: c) simp_all

lemma registry_agrees_step:
  assumes "registry_agrees c"
  shows "registry_agrees (apply_op x c)"
proof (cases c)
  case (Pair st fr)
  with assms
  have inv: "\<forall>t. SCOPED_SESSION st t = None \<or> SCOPED_SESSION st t = SESSION_HOLDER st t"
    by (simp add: registry_agrees_def)
  show ?thesis
  proof (cases x)
    case (Enter t)
    show ?thesis
    proof (cases "SESSION_HOLDER st t")
      case None
      with inv have "SCOPED_SESSION st t = None" by auto
      with None inv Pair Enter show ?thesis
        by (simp add: registry_agrees_def session_enter_unbound)
    next
      case (Some s)
      with inv Pair Enter show ?thesis
        by (simp add: registry_agrees_def session_enter_bound logging_error_def)
    qed
  next
    case (Exit t bo co)
    with inv Pair show ?thesis
      by (auto simp: registry_agrees_def exit_defs lib_defs Let_def
            split: option.splits prod.splits list.splits)
  qed (use inv Pair in \<open>auto simp: registry_agrees_def init_def create_engine_def
         current_session_def lib_defs create_db_def drop_db_def create_table_def drop_table_def
         split: option.splits sum.splits\<close>)
qed

lemma bound_in_scope_step:
  assumes "bound_in_scope c"
  shows "bound_in_scope (apply_op x c)"
proof (cases c)
  case (Pair st fr)
  with assms
  have inv: "\<And>t s. SESSION_HOLDER st t = Some s \<Longrightarrow> \<exists>rest. fr t = s # rest"
    by (simp add: bound_in_scope_def)
  show ?thesis
  proof (cases x)
    case (Enter t)
    with inv Pair show ?thesis
      by (auto simp: bound_in_scope_def session_enter_def lib_defs Let_def
            split: option.splits prod.splits)
  next
    case (Exit t bo co)
    with inv Pair show ?thesis
      by (auto simp: bound_in_scope_def exit_defs lib_defs Let_def
            split: option.splits prod.splits list.splits)
  qed (use inv Pair in \<open>auto simp: bound_in_scope_def init_def create_engine_def
         current_session_def lib_defs create_db_def drop_db_def create_table_def drop_table_def
         split: option.splits sum.splits\<close>)
qed

lemma holder_step:
  "SESSION_HOLDER (fst c) t = Some s \<Longrightarrow>
     SESSION_HOLDER (fst (apply_op x c)) t = None \<or>
     SESSION_HOLDER (fst (apply_op x c)) t = Some s"
  by (cases c; cases x)
     (auto simp: session_enter_def exit_defs lib_defs Let_def init_def create_engine_def
         current_session_def create_db_def drop_db_def create_table_def drop_table_def
         split: option.splits prod.splits list.splits sum.splits)

lemma invariants_run:
  "registry_agrees (run ops (start uri d)) \<and> bound_in_scope (run ops (start uri d))"
proof (induction ops rule: rev_induct)
  case Nil
  show ?case
    by (simp add: registry_agrees_def bound_in_scope_def start_def initial_fields)
next
  case (snoc x xs)
  then show ?case
    by (simp add: run_snoc registry_agrees_step bound_in_scope_step)
qed

text \<open>
  C8. In every state that a run of the module reaches from its initial state, each
  thread has at most one session associated with it: the holder keeps at most one by its
  type, the registry's session for the thread, if there is one, is the one in the holder,
  and a session in the holder belongs to the innermost scope the thread is in. From such
  a state no operation puts a different session into a holder that has one: the holder
  keeps its session or loses it.
\<close>

theorem at_most_one_session:
  "registry_agrees (run ops (start uri d)) \<and>
   bound_in_scope (run ops (start uri d)) \<and>
   (\<forall>x t s. SESSION_HOLDER (fst (run ops (start uri d))) t = Some s \<longrightarrow>
      SESSION_HOLDER (fst (apply_op x (run ops (start uri d)))) t = None \<or>
      SESSION_HOLDER (fst (apply_op x (run ops (start uri d)))) t = Some s)"
  using invariants_run[of ops uri d] holder_step
  by blast

theorem at_most_one_session_witness:
  "SESSION_HOLDER (fst (run [Enter 0] (start ''sqlite://'' empty_db))) 0 = Some 0 \<and>
   SCOPED_SESSION (fst (run [Enter 0] (start ''sqlite://'' empty_db))) 0 = Some 0 \<and>
   (\<exists>rest. snd (run [Enter 0] (start ''sqlite://'' empty_db)) 0 = 0 # rest) \<and>
   SESSION_HOLDER (fst (apply_op (Enter 0) (run [Enter 0] (start ''sqlite://'' empty_db)))) 0
     = Some 0"
proof -
  let ?c = "run [Enter 0] (start ''sqlite://'' empty_db)"
  have h: "SESSION_HOLDER (fst ?c) 0 = Some 0"
    by (simp add: start_def session_enter_initial)
  have r: "SCOPED_SESSION (fst ?c) 0 \<noteq> None"
    by (simp add: start_def session_enter_initial)
  have e: "SESSION_HOLDER (fst (apply_op (Enter 0) ?c)) 0 \<noteq> None"
    by (simp add: start_def session_enter_initial session_enter_bound logging_error_def)
  from at_most_one_session[of "[Enter 0]" "''sqlite://''" empty_db] h r e
  show ?thesis
    unfolding registry_agrees_def bound_in_scope_def by metis
qed

subsection \<open>Claims about init and the schema helpers\<close>

text \<open>
  Only an \<open>init\<close> whose \<open>create_engine\<close> returns rebinds the factory, and the only
  change any operation makes to the session objects is that entering a scope may add
  one, bound to the factory's engine.
\<close>

lemma init_raises:
  "init u (Some e) st = (Some e, st)"
  by (simp add: init_def create_engine_def)

lemma init_returns:
  "init u None st =
     (None, st\<lparr>ENGINE := Engine u, SESSION := Engine u, SCOPED_SESSION := Map.empty\<rparr>)"
  by (simp add: init_def create_engine_def)

lemma sessions_step:
  assumes "\<forall>v. x \<noteq> Init v None"
  shows "SESSION (fst (apply_op x c)) = SESSION (fst c) \<and>
         (sessions (fst (apply_op x c)) = sessions (fst c) \<or>
          sessions (fst (apply_op x c)) = sessions (fst c) @ [SESSION (fst c)])"
proof (cases x)
  case (Init v eo)
  with assms obtain e where "eo = Some e" by (cases eo) auto
  with Init show ?thesis by (cases c) (simp add: init_raises)
qed (cases c; auto simp: session_enter_def exit_defs lib_defs Let_def current_session_def
       create_db_def drop_db_def create_table_def drop_table_def
       split: option.splits prod.splits list.splits sum.splits)+

lemma sessions_run:
  assumes "\<forall>v. Init v None \<notin> set ops"
  shows "SESSION (fst (run ops c)) = SESSION (fst c) \<and>
         (\<exists>n. sessions (fst (run ops c)) = sessions (fst c) @ replicate n (SESSION (fst c)))"
  using assms
proof (induction ops rule: rev_induct)
  case Nil
  show ?case by simp
next
  case (snoc x xs)
  then have x: "\<forall>v. x \<noteq> Init v None" and xs: "\<forall>v. Init v None \<notin> set xs"
    by auto
  from snoc.IH[OF xs] obtain n where
    f: "SESSION (fst (run xs c)) = SESSION (fst c)" and
    n: "sessions (fst (run xs c)) = sessions (fst c) @ replicate n (SESSION (fst c))"
    by blast
  from sessions_step[OF x, of "run xs c"] f n
  have "sessions (fst (run (xs @ [x]) c)) = sessions (fst c) @ replicate n (SESSION (fst c)) \<or>
        sessions (fst (run (xs @ [x]) c)) =
          sessions (fst c) @ replicate (Suc n) (SESSION (fst c))"
    by (simp add: run_snoc replicate_append_same)
  then have "\<exists>m. sessions (fst (run (xs @ [x]) c)) =
                 sessions (fst c) @ replicate m (SESSION (fst c))"
    by blast
  with sessions_step[OF x, of "run xs c"] f show ?case
    by (simp add: run_snoc)
qed

text \<open>
  C6, as the code has it. When \<open>create_engine\<close> raises on the URL, \<open>init\<close> raises the
  same exception and changes nothing. When it returns, \<open>init(database_url)\<close> makes the
  engine of that URL the global engine and the factory's engine, and leaves the existing
  session objects, with their engines, and the holder as they were. A thread with no
  session in its holder that enters a scope next is yielded a new session bound to the
  new engine; and over any further operations, by any threads, among which no \<open>init\<close>
  installs another engine, the sessions that existed stay as they were and every session
  made is bound to the new engine.
\<close>

theorem init_rebinds_factory:
  "init u (Some e) st = (Some e, st) \<and>
   fst (init u None st) = None \<and>
   ENGINE (snd (init u None st)) = Engine u \<and>
   SESSION (snd (init u None st)) = Engine u \<and>
   sessions (snd (init u None st)) = sessions st \<and>
   SESSION_HOLDER (snd (init u None st)) = SESSION_HOLDER st \<and>
   (\<forall>t. SESSION_HOLDER st t = None \<longrightarrow>
      fst (session_enter t (snd (init u None st))) = length (sessions st) \<and>
      sessions (snd (session_enter t (snd (init u None st)))) = sessions st @ [Engine u]) \<and>
   ((\<forall>v. Init v None \<notin> set ops) \<longrightarrow>
      (\<exists>n. sessions (fst (run ops (snd (init u None st), fr))) =
            sessions st @ replicate n (Engine u)))"
proof -
  let ?st' = "snd (init u None st)"
  have a: "fst (init u None st) = None"
    "ENGINE ?st' = Engine u" "SESSION ?st' = Engine u"
    "sessions ?st' = sessions st" "SESSION_HOLDER ?st' = SESSION_HOLDER st"
    "SCOPED_SESSION ?st' t = None" for t
    by (simp_all add: init_returns)
  have b: "fst (session_enter t ?st') = length (sessions st) \<and>
           sessions (snd (session_enter t ?st')) = sessions st @ [Engine u]"
    if "SESSION_HOLDER st t = None" for t
    using that by (simp add: session_enter_unbound a)
  have c: "\<exists>n. sessions (fst (run ops (?st', fr))) = sessions st @ replicate n (Engine u)"
    if "\<forall>v. Init v None \<notin> set ops"
    using sessions_run[OF that, of "(?st', fr)"] by (simp add: a)
  from a b c init_raises[of u e st] show ?thesis by blast
qed

theorem init_rebinds_factory_witness:
  "SESSION_HOLDER (snd (session_enter 0 (initial ''sqlite://'' empty_db))) 1 = None \<and>
   sessions (snd (session_enter 0 (initial ''sqlite://'' empty_db))) = [Engine ''sqlite://''] \<and>
   sessions (snd (session_enter 1
      (snd (init ''sqlite:///b.db'' None
              (snd (session_enter 0 (initial ''sqlite://'' empty_db))))))) =
     [Engine ''sqlite://'', Engine ''sqlite:///b.db''] \<and>
   Init ''sqlite:///c.db'' None \<notin> set [Enter 0, Init [] (Some (Error ''ArgumentError'')), Enter 1] \<and>
   sessions (fst (run [Enter 0, Init [] (Some (Error ''ArgumentError'')), Enter 1]
      (snd (init ''sqlite:///b.db'' None
              (snd (session_enter 0 (initial ''sqlite://'' empty_db)))),
       (\<lambda>t. [])(0 := [0])))) =
     [Engine ''sqlite://'', Engine ''sqlite:///b.db'']"
proof -
  let ?st = "snd (session_enter 0 (initial ''sqlite://'' empty_db))"
  let ?ops = "[Enter 0, Init [] (Some (Error ''ArgumentError'')), Enter 1]"
  let ?c = "run ?ops (snd (init ''sqlite:///b.db'' None ?st), (\<lambda>t. [])(0 := [0]))"
  have h: "SESSION_HOLDER ?st 1 = None"
    by (simp add: session_enter_initial)
  have s: "sessions ?st = [Engine ''sqlite://'']"
    by (simp add: session_enter_initial)
  have i: "\<forall>v. Init v None \<notin> set ?ops"
    by simp
  have l: "length (sessions (fst ?c)) = 2"
    by (simp add: session_enter_initial session_enter_bound session_enter_unbound
          init_returns init_raises logging_error_def)
  from init_rebinds_factory[of "''sqlite:///b.db''" _ ?st ?ops "(\<lambda>t. [])(0 := [0])"] i s
  obtain n where
    n: "sessions (fst ?c) = [Engine ''sqlite://''] @ replicate n (Engine ''sqlite:///b.db'')"
    by auto
  with l have "n = 1" by simp
  with n have r: "sessions (fst ?c) = [Engine ''sqlite://'', Engine ''sqlite:///b.db'']"
    by simp
  from init_rebinds_factory[of "''sqlite:///b.db''" _ ?st "[]" "\<lambda>t. []"] h s
  have e: "sessions (snd (session_enter 1 (snd (init ''sqlite:///b.db'' None ?st)))) =
             [Engine ''sqlite://'', Engine ''sqlite:///b.db'']"
    by simp
  from h s i r e show ?thesis by blast
qed

text \<open>
  C6 as stated has \<open>init\<close> replace the engine whatever the URL. The empty string is
  not a URL: \<open>create_engine\<close> raises on it, \<open>init\<close> raises with it, and the global
  engine and the factory's engine are the ones of before the call.
\<close>

theorem init_rejected_url_keeps_engine:
  "fst (init [] (Some (Error ''ArgumentError'')) (initial ''sqlite://'' empty_db)) =
     Some (Error ''ArgumentError'') \<and>
   ENGINE (snd (init [] (Some (Error ''ArgumentError'')) (initial ''sqlite://'' empty_db))) =
     Engine ''sqlite://'' \<and>
   SESSION (snd (init [] (Some (Error ''ArgumentError'')) (initial ''sqlite://'' empty_db))) =
     Engine ''sqlite://'' \<and>
   ENGINE (snd (init [] (Some (Error ''ArgumentError'')) (initial ''sqlite://'' empty_db))) \<noteq>
     Engine []"
  by (simp add: init_def create_engine_def initial_fields)

text \<open>
  C7. \<open>create_table\<close> and \<open>drop_table\<close> pass \<open>checkfirst=True\<close>, so neither raises:
  not on a first call, not on a second call in a row, which changes nothing more; a
  table that exists is left alone by \<open>create_table\<close>, and a table that is absent by
  \<open>drop_table\<close>.
\<close>

theorem create_drop_table_idempotent:
  "fst (create_table tbl st) = None \<and>
   fst (create_table tbl (snd (create_table tbl st))) = None \<and>
   snd (create_table tbl (snd (create_table tbl st))) = snd (create_table tbl st) \<and>
   (tbl \<in> db st (ENGINE st) \<longrightarrow> create_table tbl st = (None, st)) \<and>
   fst (drop_table tbl st) = None \<and>
   fst (drop_table tbl (snd (drop_table tbl st))) = None \<and>
   snd (drop_table tbl (snd (drop_table tbl st))) = snd (drop_table tbl st) \<and>
   (tbl \<notin> db st (ENGINE st) \<longrightarrow> drop_table tbl st = (None, st))"
  by (simp add: create_table_def drop_table_def table_create_def table_drop_def)

theorem create_drop_table_idempotent_witness:
  "''host'' \<in> db (snd (create_table ''host'' (initial ''sqlite://'' empty_db)))
               (ENGINE (snd (create_table ''host'' (initial ''sqlite://'' empty_db)))) \<and>
   create_table ''host'' (snd (create_table ''host'' (initial ''sqlite://'' empty_db))) =
     (None, snd (create_table ''host'' (initial ''sqlite://'' empty_db))) \<and>
   ''host'' \<notin> db (initial ''sqlite://'' empty_db) (ENGINE (initial ''sqlite://'' empty_db)) \<and>
   drop_table ''host'' (initial ''sqlite://'' empty_db) = (None, initial ''sqlite://'' empty_db)"
proof -
  let ?st = "initial ''sqlite://'' empty_db"
  have a: "''host'' \<in> db (snd (create_table ''host'' ?st)) (ENGINE (snd (create_table ''host'' ?st)))"
    by (simp add: create_table_def table_create_def initial_fields empty_db_def)
  have b: "''host'' \<notin> db ?st (ENGINE ?st)"
    by (simp add: initial_fields empty_db_def)
  from a b create_drop_table_idempotent[of "''host''" "snd (create_table ''host'' ?st)"]
    create_drop_table_idempotent[of "''host''" ?st]
  show ?thesis by simp
qed

text \<open>
  C10. \<open>create_db\<close>, \<open>drop_db\<close>, \<open>create_table\<close> and \<open>drop_table\<close> leave the global
  engine, the factory's engine, the registry and the holder as they were.
\<close>

theorem schema_helpers_frame:
  "module_state (create_db md st) = module_state st \<and>
   module_state (drop_db md st) = module_state st \<and>
   module_state (snd (create_table tbl st)) = module_state st \<and>
   module_state (snd (drop_table tbl st)) = module_state st"
  by (simp add: module_state_def create_db_def drop_db_def create_table_def drop_table_def
        split: sum.splits)

end
